theory Spec2Isabelle
  imports Main "HOL-Library.AList"
begin

section \<open>Identifier resolver (\<^verbatim>\<open>update_istat\<close>)\<close>

text \<open>
  ISTAT codes are opaque text tokens; only equality and membership are used on them.
  A resolution record is the triple that \<^verbatim>\<open>update_istat\<close> stores per code:
  (updated code, changed, suppressed).
\<close>

type_synonym code = string

type_synonym resolution = "code \<times> bool \<times> bool"

text \<open>The exceptions the functions of the repository can end with are values.\<close>

datatype py_error = TypeError | KeyError | AttributeError

text \<open>
  \<^verbatim>\<open>mapping = df_map.set_index(istat_old)[istat_new].to_dict()\<close>

  The mapping table is a list of rows (old code, new code). The dictionary built from it
  is kept as an association list with distinct keys in insertion order: a key seen again
  keeps its place and takes the later value, as a Python dict does.
\<close>

definition to_dict :: "(code \<times> code) list \<Rightarrow> (code \<times> code) list" where
  "to_dict rows = foldl (\<lambda>d (k, v). AList.update k v d) [] rows"

text \<open>\<^verbatim>\<open>len(mapping)\<close>: the number of distinct keys.\<close>

definition dict_len :: "(code \<times> code) list \<Rightarrow> nat" where
  "dict_len mapping = length (remdups (map fst mapping))"

text \<open>\<^verbatim>\<open>current in mapping\<close> and \<^verbatim>\<open>mapping[current]\<close> (read only under the former).\<close>

definition in_dict :: "(code \<times> code) list \<Rightarrow> code \<Rightarrow> bool" where
  "in_dict mapping k = (map_of mapping k \<noteq> None)"

definition dict_get :: "(code \<times> code) list \<Rightarrow> code \<Rightarrow> code" where
  "dict_get mapping k = (case map_of mapping k of Some v \<Rightarrow> v | None \<Rightarrow> k)"

text \<open>
  \<^verbatim>\<open>
  def resolve_code(code):
      visited = set()
      current = code
      while current in mapping and current not in visited:
          visited.add(current)
          current = mapping[current]
      return current
  \<close>
  The loop is a recursive function of its two variables. Every iteration adds a key of
  the dictionary to \<open>visited\<close> that was not there, so the number of unvisited keys
  decreases.
\<close>

function resolve_loop :: "(code \<times> code) list \<Rightarrow> code set \<Rightarrow> code \<Rightarrow> code" where
  "resolve_loop mapping visited current =
     (if in_dict mapping current \<and> current \<notin> visited
      then resolve_loop mapping (insert current visited) (dict_get mapping current)
      else current)"
  by pat_completeness auto
termination
proof (relation "measure (\<lambda>(mapping, visited, current). card (fst ` set mapping - visited))")
  show "wf (measure (\<lambda>(mapping, visited, current). card (fst ` set mapping - visited)))"
    by simp
next
  fix mapping :: "(code \<times> code) list" and visited :: "code set" and current :: code
  assume c: "in_dict mapping current \<and> current \<notin> visited"
  then have "current \<in> fst ` set mapping"
    by (auto simp: in_dict_def dest: map_of_SomeD intro: rev_image_eqI)
  with c have "fst ` set mapping - insert current visited \<subset> fst ` set mapping - visited"
    by auto
  then have "card (fst ` set mapping - insert current visited) < card (fst ` set mapping - visited)"
    by (intro psubset_card_mono) auto
  then show "((mapping, insert current visited, dict_get mapping current), (mapping, visited, current))
      \<in> measure (\<lambda>(mapping, visited, current). card (fst ` set mapping - visited))"
    by simp
qed

declare resolve_loop.simps [simp del]

definition resolve_code :: "(code \<times> code) list \<Rightarrow> code \<Rightarrow> code" where
  "resolve_code mapping code = resolve_loop mapping {} code"

text \<open>
  The same loop run on a budget: each unit of fuel pays for one evaluation of the loop
  condition (one lookup of \<open>current\<close> in the dictionary). \<open>None\<close> means the budget ran
  out before the loop left.
\<close>

fun resolve_loop_fuel :: "nat \<Rightarrow> (code \<times> code) list \<Rightarrow> code set \<Rightarrow> code \<Rightarrow> code option" where
  "resolve_loop_fuel 0 mapping visited current = None"
| "resolve_loop_fuel (Suc n) mapping visited current =
     (if in_dict mapping current \<and> current \<notin> visited
      then resolve_loop_fuel n mapping (insert current visited) (dict_get mapping current)
      else Some current)"

text \<open>
  \<^verbatim>\<open>
  for code in unique:
      if code in valid_set:
          resolved[code] = (code, False, False)   # already valid
      else:
          final = resolve_code(code)
          if final != code:
              resolved[code] = (final, True, False)  # changed
          else:
              resolved[code] = (code, False, True)   # suppressed
  \<close>
\<close>

definition resolve_entry :: "(code \<times> code) list \<Rightarrow> code set \<Rightarrow> code \<Rightarrow> resolution" where
  "resolve_entry mapping valid_set code =
     (if code \<in> valid_set then (code, False, False)
      else (let final = resolve_code mapping code
            in if final \<noteq> code then (final, True, False)
               else (code, False, True)))"

fun resolve_all :: "(code \<times> code) list \<Rightarrow> code set \<Rightarrow> code list \<Rightarrow> (code \<rightharpoonup> resolution)
    \<Rightarrow> (code \<rightharpoonup> resolution)" where
  "resolve_all mapping valid_set [] resolved = resolved"
| "resolve_all mapping valid_set (code # rest) resolved =
     resolve_all mapping valid_set rest (resolved(code \<mapsto> resolve_entry mapping valid_set code))"

text \<open>
  \<^verbatim>\<open>Series.unique()\<close>: the distinct values in order of first appearance.
\<close>

fun unique :: "'a list \<Rightarrow> 'a list" where
  "unique [] = []"
| "unique (x # xs) = x # unique (filter (\<lambda>y. y \<noteq> x) xs)"

text \<open>
  The dictionary \<open>resolved\<close> as it stands after the loop of \<^verbatim>\<open>update_istat\<close>, from the
  identifier column of \<open>df\<close>, the rows of \<open>df_map\<close> and the valid codes.
\<close>

definition resolved_dict :: "code list \<Rightarrow> (code \<times> code) list \<Rightarrow> code list \<Rightarrow> (code \<rightharpoonup> resolution)" where
  "resolved_dict df_col df_map valid_codes =
     resolve_all (to_dict df_map) (set valid_codes) (unique df_col) Map.empty"

text \<open>
  \<^verbatim>\<open>
  triples = df[istat_col].map(resolved)
  out = pd.DataFrame(triples.tolist(), index=df.index)
  df = df.copy()
  df[f"{istat_col}_updated"] = out[0]
  df["changed"] = out[1]
  df["suppressed"] = out[2]
  \<close>
  Every row takes the record of its code, a row whose code has no record being \<open>None\<close>.
  The three new columns are returned as one list of triples. A frame without rows gives
  an \<open>out\<close> without columns, and reading its column 0 raises \<^verbatim>\<open>KeyError\<close>.
\<close>

definition update_istat :: "code list \<Rightarrow> (code \<times> code) list \<Rightarrow> code list
    \<Rightarrow> py_error + resolution option list" where
  "update_istat df_col df_map valid_codes =
     (let resolved = resolved_dict df_col df_map valid_codes;
          triples = map resolved df_col
      in if triples = [] then Inl KeyError else Inr triples)"

section \<open>Fuzzy match suggester (\<^verbatim>\<open>similarity_score\<close>)\<close>

text \<open>
  Names are compared for equality only. The two data frames enter as the column \<open>col\<close>
  of each, a list of names.
\<close>

type_synonym name = string

text \<open>
  \<^verbatim>\<open>process.extractOne(name, names_df2, scorer = fuzz.WRatio)\<close> is the library rapidfuzz:
  it scores every choice in turn and keeps a choice only when its score is greater than
  the best so far, so the first of several best choices wins. It returns the choice, its
  score and its index, and \<^verbatim>\<open>None\<close> when there is no choice at all. The scorer is a
  parameter of the model.
\<close>

fun extractOne_loop :: "(name \<Rightarrow> name \<Rightarrow> 's::linorder) \<Rightarrow> name \<Rightarrow> nat \<Rightarrow> name list
    \<Rightarrow> (name \<times> 's \<times> nat) option \<Rightarrow> (name \<times> 's \<times> nat) option" where
  "extractOne_loop scorer query key [] result = result"
| "extractOne_loop scorer query key (choice # rest) result =
     (let score = scorer query choice
      in extractOne_loop scorer query (Suc key) rest
           (case result of
              None \<Rightarrow> Some (choice, score, key)
            | Some (_, best, _) \<Rightarrow> if best < score then Some (choice, score, key) else result))"

definition extractOne :: "(name \<Rightarrow> name \<Rightarrow> 's::linorder) \<Rightarrow> name \<Rightarrow> name list
    \<Rightarrow> (name \<times> 's \<times> nat) option" where
  "extractOne scorer query choices = extractOne_loop scorer query 0 choices None"

text \<open>
  \<^verbatim>\<open>
  rows = []
  for name in unmatched:
      match, score, _ = process.extractOne(name, names_df2, scorer = fuzz.WRatio)
      rows.append({'Name in df1' : name, 'Name in df2' : match,
                   'Similarity score (0-100)' : score})
  \<close>
  Unpacking \<^verbatim>\<open>None\<close> into three names raises \<^verbatim>\<open>TypeError\<close>.
\<close>

fun suggestion_rows :: "(name \<Rightarrow> name \<Rightarrow> 's::linorder) \<Rightarrow> name list \<Rightarrow> name list
    \<Rightarrow> (name \<times> name \<times> 's) list \<Rightarrow> py_error + (name \<times> name \<times> 's) list" where
  "suggestion_rows scorer names_df2 [] rows = Inr rows"
| "suggestion_rows scorer names_df2 (name # rest) rows =
     (case extractOne scorer name names_df2 of
        None \<Rightarrow> Inl TypeError
      | Some (match, score, _) \<Rightarrow>
          suggestion_rows scorer names_df2 rest (rows @ [(name, match, score)]))"

text \<open>
  \<^verbatim>\<open>pd.DataFrame(rows).sort_values('Similarity score (0-100)', ascending = False)\<close>

  A frame built from no rows has no columns, and sorting it by a column raises
  \<^verbatim>\<open>KeyError\<close>. Otherwise the rows come out in descending order of score. The sort
  is the default one of pandas, which is not stable: the order of rows with equal scores
  is the library's choice. That choice is the parameter \<open>tie\<close>, a rank on rows: among
  rows with equal scores a lower rank goes first. The rows of one table have distinct
  source names, so every order of them is the order of some rank.
\<close>

definition sort_values_desc :: "(name \<times> name \<times> 's::linorder \<Rightarrow> nat)
    \<Rightarrow> (name \<times> name \<times> 's) list \<Rightarrow> (name \<times> name \<times> 's) list" where
  "sort_values_desc tie rows =
     rev (sort_key (\<lambda>(_, _, score). score) (rev (sort_key tie rows)))"

definition sort_values :: "(name \<times> name \<times> 's::linorder \<Rightarrow> nat)
    \<Rightarrow> (name \<times> name \<times> 's) list \<Rightarrow> py_error + (name \<times> name \<times> 's) list" where
  "sort_values tie rows = (if rows = [] then Inl KeyError else Inr (sort_values_desc tie rows))"

text \<open>
  \<^verbatim>\<open>
  names_df1 = df1[col].unique()
  names_df2 = df2[col].unique()
  unmatched = [name for name in names_df1 if name not in names_df2]
  \<close>
\<close>

definition similarity_score :: "(name \<Rightarrow> name \<Rightarrow> 's::linorder)
    \<Rightarrow> (name \<times> name \<times> 's \<Rightarrow> nat) \<Rightarrow> name list \<Rightarrow> name list
    \<Rightarrow> py_error + (name \<times> name \<times> 's) list" where
  "similarity_score scorer tie df1_col df2_col =
     (let names_df1 = unique df1_col;
          names_df2 = unique df2_col;
          unmatched = filter (\<lambda>name. name \<notin> set names_df2) names_df1
      in case suggestion_rows scorer names_df2 unmatched [] of
           Inl e \<Rightarrow> Inl e
         | Inr rows \<Rightarrow> sort_values tie rows)"

section \<open>Name canonicalizer (\<^verbatim>\<open>normalize_name\<close>)\<close>

text \<open>
  A Python \<^verbatim>\<open>str\<close> is a sequence of Unicode code points. \<open>py\<close> writes an ASCII text as
  one.
\<close>

type_synonym pystr = "nat list"

definition py :: "string \<Rightarrow> pystr" where
  "py s = map of_char s"

text \<open>
  \<^verbatim>\<open>unidecode.unidecode(name)\<close> is the library Unidecode: a code point below 128 is kept,
  any other is replaced by the text its table has for it, and by nothing when the table
  has no entry. The table is a parameter of the model; the library's own table holds
  ASCII text only, which \<open>ascii_table\<close> says of a table.
\<close>

type_synonym table = "(nat \<times> pystr) list"

definition ascii_table :: "table \<Rightarrow> bool" where
  "ascii_table tbl = list_all (\<lambda>(c, repl). list_all (\<lambda>d. d < 128) repl) tbl"

definition get_repl_str :: "table \<Rightarrow> nat \<Rightarrow> pystr" where
  "get_repl_str tbl c =
     (if c < 128 then [c] else (case map_of tbl c of Some repl \<Rightarrow> repl | None \<Rightarrow> []))"

definition unidecode :: "table \<Rightarrow> pystr \<Rightarrow> pystr" where
  "unidecode tbl s = concat (map (get_repl_str tbl) s)"

text \<open>
  A few entries of the library's table (the accented vowels of Italian), for the
  examples.
\<close>

definition accented_vowels :: table where
  "accented_vowels =
     [(224, py ''a''), (232, py ''e''), (233, py ''e''), (236, py ''i''),
      (242, py ''o''), (249, py ''u'')]"

text \<open>
  \<^verbatim>\<open>name.lower()\<close>, on the ASCII text that unidecode returns: the letters A to Z move to
  a to z. Code points from 128 on, which the library never returns, are left as they
  are here.
\<close>

definition lower_char :: "nat \<Rightarrow> nat" where
  "lower_char c = (if 65 \<le> c \<and> c \<le> 90 then c + 32 else c)"

definition lower :: "pystr \<Rightarrow> pystr" where
  "lower s = map lower_char s"

text \<open>
  \<^verbatim>\<open>name.strip()\<close> drops the leading and the trailing whitespace, by \<^verbatim>\<open>str.isspace\<close>:
  tab to carriage return, the four separators 28 to 31, the space, and the Unicode
  spaces beyond ASCII.
\<close>

definition isspace :: "nat \<Rightarrow> bool" where
  "isspace c = (9 \<le> c \<and> c \<le> 13 \<or> 28 \<le> c \<and> c \<le> 32 \<or> c = 133 \<or> c = 160 \<or> c = 5760
     \<or> 8192 \<le> c \<and> c \<le> 8202 \<or> c = 8232 \<or> c = 8233 \<or> c = 8239 \<or> c = 8287 \<or> c = 12288)"

definition strip :: "pystr \<Rightarrow> pystr" where
  "strip s = rev (dropWhile isspace (rev (dropWhile isspace s)))"

text \<open>
  \<^verbatim>\<open>string.punctuation\<close>: the 32 ASCII characters from ! to /, : to @, [ to ` and
  { to ~. \<^verbatim>\<open>name.translate(str.maketrans('', '', string.punctuation))\<close> deletes them.
\<close>

definition punctuation :: pystr where
  "punctuation = [33..<48] @ [58..<65] @ [91..<97] @ [123..<127]"

definition remove_punctuation :: "pystr \<Rightarrow> pystr" where
  "remove_punctuation s = filter (\<lambda>c. c \<notin> set punctuation) s"

text \<open>
  \<^verbatim>\<open>
  def normalize_name(name):
      if pd.isnull(name):
          return ""
      name = unidecode.unidecode(name)       # Remove accents
      name = name.lower()                    # Lowercase
      name = name.strip()                    # Remove whitespace
      name = name.translate(str.maketrans('', '', string.punctuation))  # Remove punctuation
      return name
  \<close>
  The argument is any value of a cell of the name column: \<open>Null\<close> is a missing value
  (\<^verbatim>\<open>None\<close> or \<^verbatim>\<open>NaN\<close>), \<open>Str\<close> a text, \<open>Number\<close> a value that is neither. Only on
  the last does a step raise: \<^verbatim>\<open>unidecode\<close> starts by encoding its argument, and a
  number has no such method (\<^verbatim>\<open>AttributeError\<close>). On a text, \<^verbatim>\<open>unidecode\<close> in its
  default mode drops what its table does not know, and \<^verbatim>\<open>lower\<close>, \<^verbatim>\<open>strip\<close> and
  \<^verbatim>\<open>translate\<close> are defined on every text.
\<close>

datatype pyval = Null | Str pystr | Number int

definition isnull :: "pyval \<Rightarrow> bool" where
  "isnull v = (v = Null)"

definition normalize_name :: "table \<Rightarrow> pyval \<Rightarrow> py_error + pystr" where
  "normalize_name tbl name =
     (if isnull name then Inr []
      else (case name of
              Str name \<Rightarrow>
                (let name = unidecode tbl name;
                     name = lower name;
                     name = strip name;
                     name = remove_punctuation name
                 in Inr name)
            | _ \<Rightarrow> Inl AttributeError))"

section \<open>Properties of the resolver\<close>

lemma set_unique: "set (unique xs) = set xs"
  by (induction xs rule: unique.induct) auto

lemma resolve_all_lookup:
  "resolve_all mapping valid_set codes resolved c =
     (if c \<in> set codes then Some (resolve_entry mapping valid_set c) else resolved c)"
  by (induction codes arbitrary: resolved) auto

lemma resolved_dict_lookup:
  "resolved_dict df_col df_map valid_codes c =
     (if c \<in> set df_col
      then Some (resolve_entry (to_dict df_map) (set valid_codes) c) else None)"
  by (simp add: resolved_dict_def resolve_all_lookup set_unique)

lemma update_istat_rows:
  "df_col \<noteq> [] \<Longrightarrow> update_istat df_col df_map valid_codes
     = Inr (map (\<lambda>c. Some (resolve_entry (to_dict df_map) (set valid_codes) c)) df_col)"
  by (simp add: update_istat_def resolved_dict_lookup)

lemma update_istat_no_rows: "update_istat [] df_map valid_codes = Inl KeyError"
  by (simp add: update_istat_def)

lemma in_dict_key: "in_dict mapping k \<Longrightarrow> k \<in> fst ` set mapping"
  by (auto simp: in_dict_def dest: map_of_SomeD intro: rev_image_eqI)

lemma unvisited_decreases:
  assumes "in_dict mapping current" and "current \<notin> visited"
  shows "card (fst ` set mapping - insert current visited) < card (fst ` set mapping - visited)"
proof -
  from assms have "fst ` set mapping - insert current visited \<subset> fst ` set mapping - visited"
    using in_dict_key by auto
  then show ?thesis
    by (intro psubset_card_mono) auto
qed

text \<open>
  A budget larger than the number of unvisited keys is never exhausted, and the budgeted
  loop then returns what the loop returns.
\<close>

lemma resolve_loop_fuel_enough:
  "card (fst ` set mapping - visited) < n \<Longrightarrow>
     resolve_loop_fuel n mapping visited current = Some (resolve_loop mapping visited current)"
proof (induction n arbitrary: visited current)
  case 0
  then show ?case by simp
next
  case (Suc n)
  show ?case
  proof (cases "in_dict mapping current \<and> current \<notin> visited")
    case True
    then have "card (fst ` set mapping - insert current visited) < card (fst ` set mapping - visited)"
      by (simp add: unvisited_decreases)
    with Suc.prems have "card (fst ` set mapping - insert current visited) < n"
      by simp
    from Suc.IH [OF this] True show ?thesis
      by (subst resolve_loop.simps) simp
  next
    case False
    then show ?thesis
      by (subst resolve_loop.simps) auto
  qed
qed

lemma dict_len_card: "dict_len mapping = card (fst ` set mapping)"
  by (simp add: dict_len_def length_remdups_card_conv)

text \<open>
  Claim C1. For every identifier and every supersession map, chain resolution terminates
  within \<open>len(mapping) + 1\<close> evaluations of the loop condition (lookups of the current
  code in the map): run on that budget, the loop returns, and returns the value of
  \<open>resolve_code\<close>. In particular, with the map \<open>{X: Y, Y: X}\<close> and no valid code, resolving
  \<open>X\<close> returns after three lookups, and the record of \<open>X\<close> is suppressed.
\<close>

theorem resolve_code_terminates_within_bound:
  "resolve_loop_fuel (dict_len mapping + 1) mapping {} code = Some (resolve_code mapping code)
   \<and> resolve_loop_fuel 3 [(''X'', ''Y''), (''Y'', ''X'')] {} ''X'' = Some ''X''
   \<and> resolved_dict [''X''] [(''X'', ''Y''), (''Y'', ''X'')] [] ''X'' = Some (''X'', False, True)"
proof -
  have "card (fst ` set mapping - {}) < dict_len mapping + 1"
    by (simp add: dict_len_card)
  then have bound: "resolve_loop_fuel (dict_len mapping + 1) mapping {} code
      = Some (resolve_code mapping code)"
    unfolding resolve_code_def by (rule resolve_loop_fuel_enough)
  have run: "resolve_loop_fuel 3 [(''X'', ''Y''), (''Y'', ''X'')] {} ''X'' = Some ''X''"
    by code_simp
  have rec: "resolved_dict [''X''] [(''X'', ''Y''), (''Y'', ''X'')] [] ''X'' = Some (''X'', False, True)"
    by code_simp
  from bound run rec show ?thesis by blast
qed

theorem resolve_code_terminates_within_bound_witness:
  "resolve_loop_fuel (dict_len [(''A'', ''B''), (''B'', ''C'')] + 1)
       [(''A'', ''B''), (''B'', ''C'')] {} ''A''
     = Some (resolve_code [(''A'', ''B''), (''B'', ''C'')] ''A'')
   \<and> resolve_code [(''A'', ''B''), (''B'', ''C'')] ''A'' = ''C''"
proof -
  have "resolve_code [(''A'', ''B''), (''B'', ''C'')] ''A'' = ''C''"
    by code_simp
  with resolve_code_terminates_within_bound [of "[(''A'', ''B''), (''B'', ''C'')]" "''A''"]
  show ?thesis by blast
qed

text \<open>
  Claim C2. For every identifier that is not a valid code and whose chain ends at a
  different code, the record is (terminus, changed, not suppressed). Nothing is assumed
  of the terminus: it need not be a valid code.
\<close>

theorem changed_record_ignores_validity_of_terminus:
  assumes "code \<in> set df_col"
    and "code \<notin> set valid_codes"
    and "resolve_code (to_dict df_map) code \<noteq> code"
  shows "resolved_dict df_col df_map valid_codes code
    = Some (resolve_code (to_dict df_map) code, True, False)"
  using assms by (simp add: resolved_dict_lookup resolve_entry_def)

theorem changed_record_ignores_validity_of_terminus_witness:
  "''A'' \<in> set [''A''] \<and> ''A'' \<notin> set ([] :: code list)
   \<and> resolve_code (to_dict [(''A'', ''B'')]) ''A'' = ''B''
   \<and> ''B'' \<notin> set ([] :: code list)
   \<and> resolved_dict [''A''] [(''A'', ''B'')] [] ''A'' = Some (''B'', True, False)"
proof -
  have h1: "''A'' \<in> set [''A'']" by simp
  have h2: "''A'' \<notin> set ([] :: code list)" by simp
  have t: "resolve_code (to_dict [(''A'', ''B'')]) ''A'' = ''B''" by code_simp
  then have h3: "resolve_code (to_dict [(''A'', ''B'')]) ''A'' \<noteq> ''A''" by simp
  from changed_record_ignores_validity_of_terminus [OF h1 h2 h3] t show ?thesis
    by simp
qed

text \<open>
  Claim C3. Every identifier that is a valid code gets the record (code, not changed,
  not suppressed), whatever the supersession map holds, also when the code is one of
  its keys.
\<close>

theorem valid_code_record:
  assumes "code \<in> set df_col" and "code \<in> set valid_codes"
  shows "resolved_dict df_col df_map valid_codes code = Some (code, False, False)"
  using assms by (simp add: resolved_dict_lookup resolve_entry_def)

theorem valid_code_record_witness:
  "''A'' \<in> set [''A'', ''Z''] \<and> ''A'' \<in> set [''A'']
   \<and> in_dict (to_dict [(''A'', ''B'')]) ''A''
   \<and> resolved_dict [''A'', ''Z''] [(''A'', ''B'')] [''A''] ''A'' = Some (''A'', False, False)"
proof -
  have h1: "''A'' \<in> set [''A'', ''Z'']" by simp
  have h2: "''A'' \<in> set [''A'']" by simp
  have k: "in_dict (to_dict [(''A'', ''B'')]) ''A''" by code_simp
  from valid_code_record [OF h1 h2, of "[(''A'', ''B'')]"] h1 h2 k show ?thesis
    by blast
qed

text \<open>
  Claim C4. Every identifier of the column has a record, and in it changed and
  suppressed are never both set. Exactly one of the three states holds: valid (both
  flags clear, the record holds the code itself and the code is a valid code), changed,
  suppressed.
\<close>

theorem record_states_exclusive:
  assumes "code \<in> set df_col"
  shows "\<exists>r ch su. resolved_dict df_col df_map valid_codes code = Some (r, ch, su)
    \<and> \<not> (ch \<and> su)
    \<and> (let valid = (\<not> ch \<and> \<not> su \<and> r = code \<and> code \<in> set valid_codes)
       in (valid \<and> \<not> ch \<and> \<not> su) \<or> (\<not> valid \<and> ch \<and> \<not> su) \<or> (\<not> valid \<and> \<not> ch \<and> su))"
proof (cases "code \<in> set valid_codes")
  case True
  with assms have "resolved_dict df_col df_map valid_codes code = Some (code, False, False)"
    by (simp add: resolved_dict_lookup resolve_entry_def)
  with True show ?thesis by auto
next
  case False
  show ?thesis
  proof (cases "resolve_code (to_dict df_map) code = code")
    case True
    with False assms have "resolved_dict df_col df_map valid_codes code = Some (code, False, True)"
      by (simp add: resolved_dict_lookup resolve_entry_def)
    then show ?thesis by auto
  next
    case moved: False
    with False assms have "resolved_dict df_col df_map valid_codes code
        = Some (resolve_code (to_dict df_map) code, True, False)"
      by (simp add: resolved_dict_lookup resolve_entry_def)
    then show ?thesis by auto
  qed
qed

theorem record_states_exclusive_witness:
  "''X'' \<in> set [''X'', ''A'']
   \<and> (\<exists>r ch su. resolved_dict [''X'', ''A''] [(''X'', ''Y''), (''Y'', ''X'')] [''A''] ''X''
          = Some (r, ch, su)
        \<and> \<not> (ch \<and> su)
        \<and> (let valid = (\<not> ch \<and> \<not> su \<and> r = ''X'' \<and> ''X'' \<in> set [''A''])
           in (valid \<and> \<not> ch \<and> \<not> su) \<or> (\<not> valid \<and> ch \<and> \<not> su) \<or> (\<not> valid \<and> \<not> ch \<and> su)))"
proof -
  have h: "''X'' \<in> set [''X'', ''A'']" by simp
  from record_states_exclusive [OF h, of "[(''X'', ''Y''), (''Y'', ''X'')]" "[''A'']"] h
  show ?thesis by blast
qed

section \<open>Properties of the suggester\<close>

lemma extractOne_loop_Some:
  "extractOne_loop scorer query key choices (Some r) \<noteq> None"
  by (induction choices arbitrary: key r) (auto simp: Let_def split: prod.splits)

lemma extractOne_None_iff: "extractOne scorer query choices = None \<longleftrightarrow> choices = []"
  by (cases choices) (simp_all add: extractOne_def Let_def extractOne_loop_Some)

lemma suggestion_rows_sources:
  "suggestion_rows scorer names_df2 unmatched rows = Inr table \<Longrightarrow>
     map fst table = map fst rows @ unmatched"
  by (induction unmatched arbitrary: rows) (auto split: option.splits prod.splits)

lemma suggestion_rows_no_choice:
  "suggestion_rows scorer [] unmatched rows = (if unmatched = [] then Inr rows else Inl TypeError)"
  by (cases unmatched) (simp_all add: extractOne_def)

lemma set_sort_values_desc: "set (sort_values_desc tie rows) = set rows"
  by (simp add: sort_values_desc_def)

lemma length_sort_values_desc: "length (sort_values_desc tie rows) = length rows"
  by (simp add: sort_values_desc_def)

lemma sort_values_desc_descending:
  "sorted (rev (map (\<lambda>(_, _, score). score) (sort_values_desc tie rows)))"
  by (simp add: sort_values_desc_def rev_map [symmetric])

lemma unique_Nil_iff: "unique xs = [] \<longleftrightarrow> xs = []"
  by (cases xs) simp_all

lemma similarity_score_all_matched:
  assumes "set df1_col \<subseteq> set df2_col"
  shows "similarity_score scorer tie df1_col df2_col = Inl KeyError"
proof -
  have "filter (\<lambda>name. name \<notin> set (unique df2_col)) (unique df1_col) = []"
    using assms by (auto simp: filter_empty_conv set_unique)
  then show ?thesis
    by (simp add: similarity_score_def sort_values_def)
qed

lemma similarity_score_empty_targets:
  "similarity_score scorer tie df1_col [] = Inl (if df1_col = [] then KeyError else TypeError)"
  by (simp add: similarity_score_def suggestion_rows_no_choice sort_values_def unique_Nil_iff)

text \<open>
  Claim C5. With no target name the function fails: unpacking the missing result of
  \<open>extractOne\<close> raises \<open>TypeError\<close> for the first source name, and with no source name
  either the sort of the empty table raises \<open>KeyError\<close>. That is not its only failure:
  with the one name \<open>roma\<close> on both sides, so that the targets are not empty, it raises
  \<open>KeyError\<close> as well.
\<close>

theorem similarity_score_fails_beyond_empty_targets:
  "similarity_score scorer tie (name # rest) [] = Inl TypeError
   \<and> similarity_score scorer tie [] [] = Inl KeyError
   \<and> similarity_score scorer tie [''roma''] [''roma''] = Inl KeyError"
proof -
  have "similarity_score scorer tie (name # rest) [] = Inl TypeError"
    by (simp add: similarity_score_empty_targets)
  moreover have "similarity_score scorer tie [] [] = Inl KeyError"
    by (simp add: similarity_score_empty_targets)
  moreover have "similarity_score scorer tie [''roma''] [''roma''] = Inl KeyError"
    by (rule similarity_score_all_matched) simp
  ultimately show ?thesis by blast
qed

text \<open>
  Claim C6. When the function returns a table, no row of it has as its source a name
  that occurs in the target column: rows are made only for the source names that are
  absent from the targets.
\<close>

theorem no_suggestion_for_exact_match:
  assumes "similarity_score scorer tie df1_col df2_col = Inr table" and "x \<in> set df2_col"
  shows "x \<notin> fst ` set table"
proof -
  let ?unmatched = "filter (\<lambda>name. name \<notin> set (unique df2_col)) (unique df1_col)"
  from assms(1) obtain rows
    where rows: "suggestion_rows scorer (unique df2_col) ?unmatched [] = Inr rows"
      and table: "sort_values tie rows = Inr table"
    by (auto simp: similarity_score_def Let_def split: sum.splits)
  from table have "set table = set rows"
    by (auto simp: sort_values_def set_sort_values_desc split: if_splits)
  moreover from suggestion_rows_sources [OF rows] have "fst ` set rows = set ?unmatched"
    by (metis append_Nil list.map(1) set_map)
  ultimately have "fst ` set table = set ?unmatched" by simp
  with assms(2) show ?thesis
    by (simp add: set_unique)
qed

theorem no_suggestion_for_exact_match_witness:
  "similarity_score (\<lambda>a b. length (filter (\<lambda>c. c \<in> set b) a)) (\<lambda>row. 0)
       [''bolognia'', ''roma''] [''bologna'', ''roma'']
     = Inr [(''bolognia'', ''bologna'', 7)]
   \<and> ''roma'' \<in> set [''bologna'', ''roma'']
   \<and> ''roma'' \<notin> fst ` set [(''bolognia'', ''bologna'', 7 :: nat)]"
proof -
  have run: "similarity_score (\<lambda>a b. length (filter (\<lambda>c. c \<in> set b) a)) (\<lambda>row. 0)
       [''bolognia'', ''roma''] [''bologna'', ''roma'']
     = Inr [(''bolognia'', ''bologna'', 7)]"
    by code_simp
  have target: "''roma'' \<in> set [''bologna'', ''roma'']" by simp
  from no_suggestion_for_exact_match [OF run target] run target show ?thesis
    by blast
qed

text \<open>
  Claim C10. When the target column is not empty and every source name occurs in it,
  the function raises \<open>KeyError\<close> (the sort of a table without rows, hence without the
  score column) and returns no table, not even an empty one.
\<close>

theorem all_matched_raises_KeyError:
  assumes "df2_col \<noteq> []" and "set (unique df1_col) \<subseteq> set df2_col"
  shows "similarity_score scorer tie df1_col df2_col = Inl KeyError"
  using assms(2) by (simp add: similarity_score_all_matched set_unique)

theorem all_matched_raises_KeyError_witness:
  "[''roma'', ''milano''] \<noteq> [] \<and> set (unique [''roma'', ''roma'']) \<subseteq> set [''roma'', ''milano'']
   \<and> similarity_score (\<lambda>a b. length (filter (\<lambda>c. c \<in> set b) a)) (\<lambda>row. 0)
        [''roma'', ''roma''] [''roma'', ''milano''] = Inl KeyError"
proof -
  have h1: "[''roma'', ''milano''] \<noteq> []" by simp
  have h2: "set (unique [''roma'', ''roma'']) \<subseteq> set [''roma'', ''milano'']" by simp
  from all_matched_raises_KeyError [OF h1 h2] h1 h2 show ?thesis
    by blast
qed

section \<open>Properties of the canonicalizer\<close>

lemmas canon_defs = normalize_name_def isnull_def unidecode_def get_repl_str_def lower_def lower_char_def
  strip_def isspace_def remove_punctuation_def punctuation_def py_def

lemma get_repl_str_ascii:
  assumes "ascii_table tbl"
  shows "\<forall>d \<in> set (get_repl_str tbl c). d < 128"
proof (cases "c < 128")
  case True
  then show ?thesis by (simp add: get_repl_str_def)
next
  case False
  show ?thesis
  proof (cases "map_of tbl c")
    case None
    with False show ?thesis by (simp add: get_repl_str_def)
  next
    case (Some repl)
    then have "(c, repl) \<in> set tbl" by (rule map_of_SomeD)
    with assms have "\<forall>d \<in> set repl. d < 128"
      by (auto simp: ascii_table_def list_all_iff)
    with False Some show ?thesis by (simp add: get_repl_str_def)
  qed
qed

lemma unidecode_ascii:
  "ascii_table tbl \<Longrightarrow> \<forall>d \<in> set (unidecode tbl s). d < 128"
  using get_repl_str_ascii by (auto simp: unidecode_def)

lemma unidecode_of_ascii:
  "\<forall>c \<in> set s. c < 128 \<Longrightarrow> unidecode tbl s = s"
  by (induction s) (simp_all add: unidecode_def get_repl_str_def)

lemma lower_char_not_upper: "\<not> (65 \<le> lower_char c \<and> lower_char c \<le> 90)"
  by (simp add: lower_char_def)

lemma lower_char_ascii: "c < 128 \<Longrightarrow> lower_char c < 128"
  by (simp add: lower_char_def)

lemma lower_of_lowercase:
  "\<forall>c \<in> set s. \<not> (65 \<le> c \<and> c \<le> 90) \<Longrightarrow> lower s = s"
  by (induction s) (auto simp: lower_def lower_char_def)

lemma set_strip: "set (strip s) \<subseteq> set s"
proof -
  have "set (strip s) \<subseteq> set (dropWhile isspace s)"
    unfolding strip_def using set_dropWhileD by fastforce
  also have "\<dots> \<subseteq> set s"
    using set_dropWhileD by fastforce
  finally show ?thesis .
qed

lemma remove_punctuation_of_clean:
  "\<forall>c \<in> set s. c \<notin> set punctuation \<Longrightarrow> remove_punctuation s = s"
  by (simp add: remove_punctuation_def)

lemma set_remove_punctuation:
  "set (remove_punctuation s) = {c \<in> set s. c \<notin> set punctuation}"
  by (simp add: remove_punctuation_def)

lemma normalize_name_Str:
  "normalize_name tbl (Str s) = Inr (remove_punctuation (strip (lower (unidecode tbl s))))"
  by (simp add: normalize_name_def isnull_def)

lemma normalize_name_Number: "normalize_name tbl (Number n) = Inl AttributeError"
  by (simp add: normalize_name_def isnull_def)

text \<open>
  What a canonical name is made of, when the table is ASCII: ASCII code points, none of
  them a capital letter or a punctuation character.
\<close>

lemma normalize_name_chars:
  assumes "ascii_table tbl" and "normalize_name tbl (Str s) = Inr y" and "c \<in> set y"
  shows "c < 128 \<and> \<not> (65 \<le> c \<and> c \<le> 90) \<and> c \<notin> set punctuation"
proof -
  from assms(2) have y: "y = remove_punctuation (strip (lower (unidecode tbl s)))"
    by (simp add: normalize_name_Str)
  with assms(3) have p: "c \<notin> set punctuation" and "c \<in> set (strip (lower (unidecode tbl s)))"
    by (simp_all add: set_remove_punctuation)
  then have "c \<in> set (lower (unidecode tbl s))"
    using set_strip by blast
  then obtain d where d: "d \<in> set (unidecode tbl s)" and c: "c = lower_char d"
    by (auto simp: lower_def)
  from d assms(1) have "d < 128" using unidecode_ascii by blast
  with c p show ?thesis
    by (simp add: lower_char_ascii lower_char_not_upper)
qed

lemma normalize_name_twice:
  assumes "ascii_table tbl" and "normalize_name tbl (Str x) = Inr y"
  shows "normalize_name tbl (Str y) = Inr (strip y)"
proof -
  have chars: "\<forall>c \<in> set y. c < 128 \<and> \<not> (65 \<le> c \<and> c \<le> 90) \<and> c \<notin> set punctuation"
    using normalize_name_chars [OF assms] by blast
  then have u: "unidecode tbl y = y"
    by (simp add: unidecode_of_ascii)
  from chars have l: "lower y = y"
    by (simp add: lower_of_lowercase)
  from chars have "\<forall>c \<in> set (strip y). c \<notin> set punctuation"
    using set_strip by blast
  then have "remove_punctuation (strip y) = strip y"
    by (rule remove_punctuation_of_clean)
  with u l show ?thesis
    by (simp add: normalize_name_Str [of tbl y])
qed

text \<open>
  Claim C7, as stated: canonicalizing twice is canonicalizing once. It fails on the
  name \<open>a !\<close>: the whitespace is trimmed before the punctuation goes, so the first pass
  returns \<open>a\<close> followed by a space, and the second pass, on that result, returns \<open>a\<close>.
\<close>

theorem normalize_name_not_idempotent:
  "normalize_name accented_vowels (Str (py ''a !'')) = Inr (py ''a '')
   \<and> normalize_name accented_vowels (Str (py ''a '')) = Inr (py ''a'')
   \<and> normalize_name accented_vowels (Str (py ''a ''))
       \<noteq> normalize_name accented_vowels (Str (py ''a !''))"
proof -
  have once: "normalize_name accented_vowels (Str (py ''a !'')) = Inr (py ''a '')"
    by (simp add: canon_defs)
  have again: "normalize_name accented_vowels (Str (py ''a '')) = Inr (py ''a'')"
    by (simp add: canon_defs)
  have "py ''a'' \<noteq> py ''a ''"
    by (simp add: py_def)
  with once again show ?thesis by simp
qed

text \<open>
  Claim C7, amended. With an ASCII table, the first pass returns a canonical name and a
  second pass, on that name, returns it with the leading and the trailing whitespace
  trimmed; it returns the same name when the canonical name has none.
\<close>

theorem normalize_name_second_pass_trims:
  assumes "ascii_table tbl"
  shows "\<exists>y. normalize_name tbl (Str x) = Inr y
    \<and> normalize_name tbl (Str y) = Inr (strip y)
    \<and> (strip y = y \<longrightarrow> normalize_name tbl (Str y) = normalize_name tbl (Str x))"
proof -
  obtain y where y: "normalize_name tbl (Str x) = Inr y"
    by (simp add: normalize_name_Str)
  from normalize_name_twice [OF assms y] have "normalize_name tbl (Str y) = Inr (strip y)" .
  with y show ?thesis by simp
qed

theorem normalize_name_second_pass_trims_witness:
  "ascii_table accented_vowels
   \<and> normalize_name accented_vowels (Str (py ''Citt'' @ [224] @ py ''!'')) = Inr (py ''citta'')
   \<and> strip (py ''citta'') = py ''citta''
   \<and> normalize_name accented_vowels (Str (py ''citta''))
       = normalize_name accented_vowels (Str (py ''Citt'' @ [224] @ py ''!''))"
proof -
  have h: "ascii_table accented_vowels"
    by (simp add: ascii_table_def accented_vowels_def py_def)
  have v: "normalize_name accented_vowels (Str (py ''Citt'' @ [224] @ py ''!'')) = Inr (py ''citta'')"
    by (simp add: canon_defs accented_vowels_def)
  have s: "strip (py ''citta'') = py ''citta''"
    by (simp add: canon_defs)
  from normalize_name_second_pass_trims [OF h, of "py ''Citt'' @ [224] @ py ''!''"]
  obtain y where y: "normalize_name accented_vowels (Str (py ''Citt'' @ [224] @ py ''!'')) = Inr y"
    and same: "strip y = y \<longrightarrow> normalize_name accented_vowels (Str y)
      = normalize_name accented_vowels (Str (py ''Citt'' @ [224] @ py ''!''))"
    by blast
  from y v have "y = py ''citta''" by simp
  with same s have "normalize_name accented_vowels (Str (py ''citta''))
      = normalize_name accented_vowels (Str (py ''Citt'' @ [224] @ py ''!''))"
    by simp
  with h v s show ?thesis by blast
qed

text \<open>
  Claim C8. A null name gives the empty string, the empty string gives the empty string,
  and no text makes the function raise: on every text it returns a canonical name. (It
  does raise on a value that is neither null nor a text, see \<open>normalize_name_Number\<close>.)
\<close>

theorem normalize_name_total_on_text:
  "normalize_name tbl Null = Inr []
   \<and> normalize_name tbl (Str []) = Inr []
   \<and> (\<exists>out. normalize_name tbl (Str x) = Inr out)"
proof -
  have "normalize_name tbl Null = Inr []"
    by (simp add: normalize_name_def isnull_def)
  moreover have "normalize_name tbl (Str []) = Inr []"
    by (simp add: canon_defs)
  moreover have "\<exists>out. normalize_name tbl (Str x) = Inr out"
    by (simp add: normalize_name_Str)
  ultimately show ?thesis by blast
qed

theorem normalize_name_total_on_text_witness:
  "normalize_name accented_vowels Null = Inr []
   \<and> normalize_name accented_vowels (Str []) = Inr []
   \<and> (\<exists>out. normalize_name accented_vowels (Str (py ''Citt'' @ [224] @ py '' d'' @ [39] @ py ''Aosta!''))
        = Inr out)"
  by (rule normalize_name_total_on_text)

text \<open>
  Claim C9. The canonical name is the name with its accents replaced first, then in
  lower case, then trimmed, then without punctuation. With a table that replaces
  the letter a with a grave accent (code point 224) by \<open>a\<close>, the name of the example,
  \<open>Citt\<close>, that letter, \<open>d'Aosta!\<close>, becomes \<open>citta daosta\<close>.
\<close>

theorem normalize_name_order_and_example:
  assumes "map_of tbl 224 = Some (py ''a'')"
  shows "normalize_name tbl (Str s) = Inr (remove_punctuation (strip (lower (unidecode tbl s))))
    \<and> normalize_name tbl (Str (py ''Citt'' @ [224] @ py '' d'' @ [39] @ py ''Aosta!''))
        = Inr (py ''citta daosta'')"
proof -
  have u: "unidecode tbl (py ''Citt'' @ [224] @ py '' d'' @ [39] @ py ''Aosta!'')
      = py ''Citta d'' @ [39] @ py ''Aosta!''"
    using assms by (simp add: unidecode_def get_repl_str_def py_def)
  have l: "lower (py ''Citta d'' @ [39] @ py ''Aosta!'') = py ''citta d'' @ [39] @ py ''aosta!''"
    by (simp add: lower_def lower_char_def py_def)
  have t: "strip (py ''citta d'' @ [39] @ py ''aosta!'') = py ''citta d'' @ [39] @ py ''aosta!''"
    by (simp add: strip_def isspace_def py_def)
  have r: "remove_punctuation (py ''citta d'' @ [39] @ py ''aosta!'') = py ''citta daosta''"
    by (simp add: remove_punctuation_def punctuation_def py_def)
  from u l t r show ?thesis
    by (simp add: normalize_name_Str)
qed

theorem normalize_name_order_and_example_witness:
  "map_of accented_vowels 224 = Some (py ''a'')
   \<and> normalize_name accented_vowels (Str (py ''Citt'' @ [224] @ py '' d'' @ [39] @ py ''Aosta!''))
       = Inr (py ''citta daosta'')"
proof -
  have h: "map_of accented_vowels 224 = Some (py ''a'')"
    by (simp add: accented_vowels_def)
  from normalize_name_order_and_example [OF h] h show ?thesis
    by blast
qed

end
